theory Spec2Isabelle
  imports Main "HOL-Library.Monad_Syntax"
begin

unbundle bit_operations_syntax

section \<open>The boundary-tag allocator of \<^verbatim>\<open>mm_dlink_heap.c\<close>\<close>

text \<open>
  The heap is an array of \<^verbatim>\<open>HeadFoot\<close> cells that starts at \<^verbatim>\<open>mem_heap_lo()\<close>.
  A \<^verbatim>\<open>HeadFoot *\<close> is the index of a cell counted from there, or \<^verbatim>\<open>NULL\<close>; a
  \<^verbatim>\<open>void *\<close> is a byte offset from \<^verbatim>\<open>mem_heap_lo()\<close>, \<^verbatim>\<open>NULL\<close>, or the value
  \<^verbatim>\<open>(void *) -1\<close> that \<^verbatim>\<open>increaseheapsize\<close> tests for (\<open>Addr a\<close> stands for an address
  that is neither).

  The source indexes cells by plain pointer arithmetic and never compares an index with
  the break, so the array of cells is total here: \<^verbatim>\<open>blockval[-1]\<close> and the cell just past
  the break are cells like any other, holding what was last stored there. Dereferencing
  \<^verbatim>\<open>NULL\<close> has no cell to go to: an operation that does it returns \<open>None\<close>, which is also the
  value of a loop that never ends.
\<close>

subsection \<open>Data\<close>

type_synonym ptr = "int option"

datatype vptr = Null | MinusOne | Addr int

text \<open>
  The four fields of \<^verbatim>\<open>union HeadFoot\<close>. \<^verbatim>\<open>size_of_blk\<close> is a bit-field of
  \<^verbatim>\<open>4 * sizeof(size_t) - 1\<close> bits, 31 on a 64-bit target: every store into it keeps the
  value modulo \<open>2 ^ 31\<close> (see \<open>set_size\<close>). \<^verbatim>\<open>alloc_or_not\<close> is one bit.
  Payload shares the cells: what a caller stores in a payload is a value of the same type.
\<close>

record HeadFoot =
  previous_free :: ptr
  next_free :: ptr
  size_of_blk :: nat
  alloc_or_not :: bool

text \<open>
  What the target fixes and the source leaves open: \<^verbatim>\<open>sizeof(HeadFoot)\<close>,
  \<^verbatim>\<open>sysconf(_SC_PAGESIZE)\<close>, \<^verbatim>\<open>sizeof(max_align_t)\<close>, the address of
  \<^verbatim>\<open>mem_heap_lo()\<close>, the number of bytes the arena provider is willing to commit, and what
  \<^verbatim>\<open>memcpy\<close> makes of two neighbouring cells when its source is not on a cell boundary
  (\<open>splice off lo hi\<close>, with \<open>0 < off < sizeof_HeadFoot\<close>).
\<close>

record config =
  sizeof_HeadFoot :: nat
  pagesize :: nat
  sizeof_max_align_t :: nat
  heap_lo_addr :: int
  max_heap :: nat
  splice :: "nat \<Rightarrow> HeadFoot \<Rightarrow> HeadFoot \<Rightarrow> HeadFoot"

definition ENOMEM :: nat where
  "ENOMEM = 12"

definition EFAULT :: nat where
  "EFAULT = 14"

text \<open>
  The state: the cells, the break of the arena provider in bytes above
  \<^verbatim>\<open>mem_heap_lo()\<close>, the static \<^verbatim>\<open>freelist\<close> and \<^verbatim>\<open>errno\<close>.
\<close>

record state =
  mem :: "int \<Rightarrow> HeadFoot"
  brk :: nat
  freelist :: ptr
  errno :: nat

definition blocks :: nat where
  "blocks = 4"

subsection \<open>The arena provider\<close>

text \<open>
  Modelled from the spec: \<^verbatim>\<open>memlib.h\<close> (\<^verbatim>\<open>mem_init\<close>, \<^verbatim>\<open>mem_deinit\<close>,
  \<^verbatim>\<open>mem_reset_brk\<close>, \<^verbatim>\<open>mem_sbrk\<close>, \<^verbatim>\<open>mem_heap_lo\<close>, \<^verbatim>\<open>mem_heap_hi\<close>) is not among
  the sources. The spec has it as a linear bump region: \<^verbatim>\<open>sbrk(bytes)\<close> extends the arena
  by \<^verbatim>\<open>bytes\<close> and returns the address of the new region, or a failure value (the one
  \<^verbatim>\<open>increaseheapsize\<close> tests for is \<^verbatim>\<open>(void *) -1\<close>); \<^verbatim>\<open>reset_brk\<close> rewinds the arena;
  \<^verbatim>\<open>heap_lo\<close> and \<^verbatim>\<open>heap_hi\<close> are the inclusive bounds of the committed arena.
  None of them touches the contents of a cell.
\<close>

definition mem_init :: "state \<Rightarrow> state" where
  "mem_init s = s\<lparr>brk := 0\<rparr>"

definition mem_deinit :: "state \<Rightarrow> state" where
  "mem_deinit s = s\<lparr>brk := 0\<rparr>"

definition mem_reset_brk :: "state \<Rightarrow> state" where
  "mem_reset_brk s = s\<lparr>brk := 0\<rparr>"

definition mem_sbrk :: "config \<Rightarrow> nat \<Rightarrow> state \<Rightarrow> vptr \<times> state" where
  "mem_sbrk c incr s =
     (if max_heap c < brk s + incr then (MinusOne, s)
      else (Addr (int (brk s)), s\<lparr>brk := brk s + incr\<rparr>))"

definition mem_heap_lo :: "state \<Rightarrow> int" where
  "mem_heap_lo s = 0"

definition mem_heap_hi :: "state \<Rightarrow> int" where
  "mem_heap_hi s = int (brk s) - 1"

subsection \<open>Stores into a cell\<close>

definition set_size :: "int \<Rightarrow> nat \<Rightarrow> state \<Rightarrow> state" where
  "set_size i v s = s\<lparr>mem := (mem s)(i := (mem s i)\<lparr>size_of_blk := v mod 2 ^ 31\<rparr>)\<rparr>"

definition set_alloc :: "int \<Rightarrow> bool \<Rightarrow> state \<Rightarrow> state" where
  "set_alloc i v s = s\<lparr>mem := (mem s)(i := (mem s i)\<lparr>alloc_or_not := v\<rparr>)\<rparr>"

definition set_next :: "int \<Rightarrow> ptr \<Rightarrow> state \<Rightarrow> state" where
  "set_next i v s = s\<lparr>mem := (mem s)(i := (mem s i)\<lparr>next_free := v\<rparr>)\<rparr>"

definition set_prev :: "int \<Rightarrow> ptr \<Rightarrow> state \<Rightarrow> state" where
  "set_prev i v s = s\<lparr>mem := (mem s)(i := (mem s i)\<lparr>previous_free := v\<rparr>)\<rparr>"

text \<open>The cell a \<^verbatim>\<open>void *\<close> converts to, for a byte offset on a cell boundary.\<close>

definition cell_of :: "config \<Rightarrow> int \<Rightarrow> int" where
  "cell_of c a = a div int (sizeof_HeadFoot c)"

subsection \<open>Lifecycle\<close>

text \<open>
  \<^verbatim>\<open>restart\<close>: the result of \<^verbatim>\<open>mem_sbrk\<close> is compared with \<^verbatim>\<open>NULL\<close>, which the
  provider never returns, so a refused request does not stop the stores either.
\<close>

definition restart :: "config \<Rightarrow> state \<Rightarrow> state" where
  "restart c s =
     (case mem_sbrk c ((blocks + 1) * sizeof_HeadFoot c) s of (r, s0) \<Rightarrow>
        if r = Null then s0
        else
          let f = mem_heap_lo s0;
              s1 = s0\<lparr>freelist := Some f\<rparr>;
              s2 = set_size (f + int blocks - 1) blocks s1;
              s3 = set_size f blocks s2;
              s4 = set_alloc (f + int blocks - 1) True s3;
              s5 = set_alloc f True s4;
              s6 = set_next f (Some f) s5;
              s7 = set_prev f (Some f) s6;
              lastblck = f + int blocks;
              s8 = set_alloc lastblck True s7
          in set_size lastblck 1 s8)"

definition mm_init :: "config \<Rightarrow> state \<Rightarrow> state" where
  "mm_init c s = (if freelist s = None then restart c (mem_init s) else s)"

definition mm_reset :: "config \<Rightarrow> state \<Rightarrow> state" where
  "mm_reset c s =
     (if freelist s = None then mm_init c s else restart c (mem_reset_brk s))"

definition mm_deinit :: "state \<Rightarrow> state" where
  "mm_deinit s = (mem_deinit s)\<lparr>freelist := None\<rparr>"

subsection \<open>Free list and coalescing\<close>

definition takefromlist :: "int \<Rightarrow> state \<Rightarrow> state option" where
  "takefromlist head s =
     (let after_p = next_free (mem s head);
          before_p = previous_free (mem s head)
      in case before_p of
           None \<Rightarrow> None
         | Some bf \<Rightarrow>
             (case after_p of
                None \<Rightarrow> None
              | Some af \<Rightarrow> Some (set_prev af before_p (set_next bf after_p s))))"

definition conv_bytes :: "config \<Rightarrow> nat \<Rightarrow> nat" where
  "conv_bytes c headchunk = (headchunk * sizeof_HeadFoot c) mod 2 ^ 64"

text \<open>
  The second half of \<^verbatim>\<open>returnfreeblocktolist\<close>, from \<^verbatim>\<open>freelist = blockval\<close> on.
\<close>

definition merge_upper :: "int \<Rightarrow> nat \<Rightarrow> state \<Rightarrow> state option" where
  "merge_upper blockval headch s =
     (let s1 = s\<lparr>freelist := Some blockval\<rparr>
      in if alloc_or_not (mem s1 (blockval + int headch)) then Some s1
         else
           (case takefromlist (blockval + int headch) s1 of
              None \<Rightarrow> None
            | Some s2 \<Rightarrow>
                let headch' = headch + size_of_blk (mem s2 (blockval + int headch));
                    s3 = set_size (blockval + int headch' - 1) headch' s2
                in Some (set_size blockval headch' s3)))"

definition returnfreeblocktolist :: "int \<Rightarrow> state \<Rightarrow> state option" where
  "returnfreeblocktolist blockval s =
     (let headch = size_of_blk (mem s blockval);
          s1 = set_alloc (blockval + int headch - 1) False s;
          s2 = set_alloc blockval False s1
      in if alloc_or_not (mem s2 (blockval - 1)) then
           (case freelist s2 of
              None \<Rightarrow> None
            | Some fl \<Rightarrow>
                (case next_free (mem s2 fl) of
                   None \<Rightarrow> None
                 | Some after \<Rightarrow>
                     let s3 = set_prev blockval (Some fl) s2;
                         s4 = set_next blockval (Some after) s3;
                         s5 = set_prev after (Some blockval) s4;
                         s6 = set_next fl (Some blockval) s5
                     in merge_upper blockval headch s6))
         else
           let lower = blockval - int (size_of_blk (mem s2 (blockval - 1)));
               headch' = headch + size_of_blk (mem s2 lower);
               s3 = set_size (lower + int headch' - 1) headch' s2;
               s4 = set_size lower headch' s3
           in merge_upper lower headch' s4)"

definition headchunksize :: "config \<Rightarrow> nat \<Rightarrow> nat" where
  "headchunksize c bytechunks =
     ((bytechunks + sizeof_HeadFoot c - 1) mod 2 ^ 64) div sizeof_HeadFoot c"

text \<open>
  \<^verbatim>\<open>increaseheapsize\<close>: the provider never answers \<^verbatim>\<open>NULL\<close>; were it to, the stores would
  go through a pointer below \<^verbatim>\<open>NULL\<close>, which has no cell.
\<close>

definition increaseheapsize :: "config \<Rightarrow> nat \<Rightarrow> state \<Rightarrow> (ptr \<times> state) option" where
  "increaseheapsize c heads0 s =
     (let allocations = headchunksize c (pagesize c);
          heads = (if heads0 < allocations then allocations else heads0);
          bytecounts = conv_bytes c heads
      in case mem_sbrk c bytecounts s of (incr, s0) \<Rightarrow>
           (case incr of
              MinusOne \<Rightarrow> Some (None, s0)
            | Null \<Rightarrow> None
            | Addr a \<Rightarrow>
                let blck = cell_of c a - 1;
                    s1 = set_size (blck + int heads - 1) heads s0;
                    s2 = set_size blck heads s1;
                    s3 = set_alloc (blck + int heads - 1) False s2;
                    s4 = set_alloc blck False s3;
                    s5 = set_alloc (blck + int heads) True s4;
                    s6 = set_size (blck + int heads) 1 s5
                in (case returnfreeblocktolist blck s6 of
                      None \<Rightarrow> None
                    | Some s7 \<Rightarrow> Some (freelist s7, s7))))"

subsection \<open>Placement\<close>

text \<open>
  The test both searches make of a block, and what they do with the block that passes
  it (lines 256 to 281, and again 328 to 353): consume it whole, or split it. On this
  path \<open>headc \<le> size_of_blk\<close>, so neither \<^verbatim>\<open>headc + blocks\<close> nor the subtraction wraps.
\<close>

definition fits :: "nat \<Rightarrow> int \<Rightarrow> state \<Rightarrow> bool" where
  "fits headc blck s \<longleftrightarrow>
     headc \<le> size_of_blk (mem s blck) \<and> alloc_or_not (mem s blck) = False"

definition place_block :: "nat \<Rightarrow> int \<Rightarrow> state \<Rightarrow> (ptr \<times> state) option" where
  "place_block headc blck s =
     (if size_of_blk (mem s blck) < headc + blocks then
        (let s1 = (if Some blck = freelist s
                   then s\<lparr>freelist := previous_free (mem s blck)\<rparr> else s)
         in case takefromlist blck s1 of
              None \<Rightarrow> None
            | Some s2 \<Rightarrow>
                let alc = size_of_blk (mem s2 blck);
                    s3 = set_alloc (blck + int alc - 1) True s2;
                    s4 = set_alloc blck True s3
                in Some (Some blck, s4))
      else
        (let alc = size_of_blk (mem s blck) - headc;
             s1 = set_size blck (size_of_blk (mem s blck) - headc) s;
             s2 = set_size (blck + int alc - 1) (size_of_blk (mem s1 blck)) s1;
             s3 = set_size (blck + int alc + int headc - 1) headc s2;
             s4 = set_size (blck + int alc) headc s3;
             s5 = set_alloc (blck + int alc + int headc - 1) True s4;
             s6 = set_alloc (blck + int alc) True s5
         in Some (Some (blck + int alc), s6)))"

text \<open>
  The \<^verbatim>\<open>while (true)\<close> loop of both searches, from the block it starts at.
\<close>

partial_function (option) search_loop ::
  "config \<Rightarrow> nat \<Rightarrow> ptr \<Rightarrow> state \<Rightarrow> (ptr \<times> state) option" where
  "search_loop c headc blck s =
     (case blck of
        None \<Rightarrow> None
      | Some b \<Rightarrow>
          if fits headc b s then place_block headc b s
          else
            (let blck' = next_free (mem s b)
             in if blck' = freelist s then
                  (case increaseheapsize c headc s of
                     None \<Rightarrow> None
                   | Some (None, s') \<Rightarrow> Some (None, s')
                   | Some (Some g, s') \<Rightarrow> search_loop c headc (Some g) s')
                else search_loop c headc blck' s))"

definition pick_free_block_from_list_first_fit ::
  "config \<Rightarrow> nat \<Rightarrow> state \<Rightarrow> (ptr \<times> state) option" where
  "pick_free_block_from_list_first_fit c headc s = search_loop c headc (freelist s) s"

text \<open>
  The \<^verbatim>\<open>do ... while (temp != freelist)\<close> scan of the best-fit search; it yields the
  final \<^verbatim>\<open>best_fit\<close>. (The counter \<^verbatim>\<open>count\<close> is never read.)
\<close>

partial_function (option) best_scan :: "nat \<Rightarrow> ptr \<Rightarrow> ptr \<Rightarrow> state \<Rightarrow> ptr option" where
  "best_scan headc temp best_fit s =
     (case temp of
        None \<Rightarrow> None
      | Some t \<Rightarrow>
          (case best_fit of
             None \<Rightarrow> None
           | Some bf \<Rightarrow>
               let best_fit' =
                     (if headc \<le> size_of_blk (mem s t) \<and> alloc_or_not (mem s t) = False
                         \<and> size_of_blk (mem s t) < size_of_blk (mem s bf)
                      then temp else best_fit);
                   temp' = next_free (mem s t)
               in if temp' = freelist s then Some best_fit'
                  else best_scan headc temp' best_fit' s))"

definition pick_free_block_from_list_best_fit ::
  "config \<Rightarrow> nat \<Rightarrow> state \<Rightarrow> (ptr \<times> state) option" where
  "pick_free_block_from_list_best_fit c headc s =
     (if freelist s = None then Some (None, s)
      else
        (case best_scan headc (freelist s) (freelist s) s of
           None \<Rightarrow> None
         | Some best_fit \<Rightarrow> search_loop c headc best_fit s))"

subsection \<open>The public calls\<close>

definition request_chunks :: "config \<Rightarrow> nat \<Rightarrow> nat" where
  "request_chunks c bytechunks =
     (let chunks = (headchunksize c bytechunks + 2) mod 2 ^ 64
      in if chunks < blocks then blocks else chunks)"

definition payload_addr :: "config \<Rightarrow> int \<Rightarrow> vptr" where
  "payload_addr c headptr = Addr ((headptr + 1) * int (sizeof_HeadFoot c))"

definition mm_malloc :: "config \<Rightarrow> nat \<Rightarrow> state \<Rightarrow> (vptr \<times> state) option" where
  "mm_malloc c bytechunks s =
     (let s0 = (if freelist s = None then mm_init c s else s);
          chunks = request_chunks c bytechunks
      in case pick_free_block_from_list_first_fit c chunks s0 of
           None \<Rightarrow> None
         | Some (None, s1) \<Rightarrow> Some (Null, s1\<lparr>errno := ENOMEM\<rparr>)
         | Some (Some headptr, s1) \<Rightarrow> Some (payload_addr c headptr, s1))"

text \<open>
  The \<^verbatim>\<open>for\<close> loop of \<^verbatim>\<open>allocatedblock\<close>: \<^verbatim>\<open>proceed\<close> advances by the size found in
  the block it has just made current.
\<close>

partial_function (option) block_walk ::
  "config \<Rightarrow> int \<Rightarrow> int \<Rightarrow> int \<Rightarrow> state \<Rightarrow> int option" where
  "block_walk c allocated blck_list proceed s =
     (if proceed * int (sizeof_HeadFoot c) \<le> allocated
      then block_walk c allocated proceed
             (proceed + int (size_of_blk (mem s proceed))) s
      else Some blck_list)"

text \<open>
  The guard of the fast path is the source's
  \<^verbatim>\<open>(uintptr_t)allocated & (sizeof(max_align_t)-1) == 0\<close>, in which \<^verbatim>\<open>==\<close> binds tighter
  than \<^verbatim>\<open>&\<close>: the address is masked with the truth value of the comparison.
\<close>

definition fast_path_guard :: "config \<Rightarrow> int \<Rightarrow> bool" where
  "fast_path_guard c allocated \<longleftrightarrow>
     ((heap_lo_addr c + allocated) AND (if sizeof_max_align_t c - 1 = 0 then 1 else 0)) \<noteq> 0"

definition fast_path :: "config \<Rightarrow> int \<Rightarrow> state \<Rightarrow> ptr" where
  "fast_path c allocated s =
     (let blck_list = cell_of c allocated - 1
      in if alloc_or_not (mem s blck_list) then
           (let headvals = size_of_blk (mem s blck_list)
            in if blocks \<le> headvals then
                 (if size_of_blk (mem s blck_list)
                       = size_of_blk (mem s (blck_list + int headvals - 1))
                     \<or> alloc_or_not (mem s blck_list)
                       = alloc_or_not (mem s (blck_list + int headvals - 1))
                  then Some blck_list else None)
               else None)
         else None)"

definition slow_path :: "config \<Rightarrow> int \<Rightarrow> state \<Rightarrow> ptr option" where
  "slow_path c allocated s =
     (let blck_list = mem_heap_lo s
      in case block_walk c allocated blck_list
                (blck_list + int (size_of_blk (mem s blck_list))) s of
           None \<Rightarrow> None
         | Some found \<Rightarrow>
             if alloc_or_not (mem s found) then Some (Some found) else Some None)"

definition allocatedblock :: "config \<Rightarrow> vptr \<Rightarrow> state \<Rightarrow> ptr option" where
  "allocatedblock c allocated s =
     (case allocated of
        Null \<Rightarrow> Some None
      | MinusOne \<Rightarrow> Some None
      | Addr a \<Rightarrow>
          if a \<le> mem_heap_lo s \<or> mem_heap_hi s \<le> a then Some None
          else if fast_path_guard c a then
            (case fast_path c a s of
               Some blck_list \<Rightarrow> Some (Some blck_list)
             | None \<Rightarrow> slow_path c a s)
          else slow_path c a s)"

text \<open>
  \<^verbatim>\<open>memcpy(newloc, allocatedptr, copybytes)\<close> with \<^verbatim>\<open>newloc\<close> on a cell boundary: cell
  \<open>i\<close> of the destination receives cell \<open>i\<close> of the source when the source is on a cell
  boundary as well, and otherwise the splice of the two cells its bytes come from.
\<close>

definition copied_cell :: "config \<Rightarrow> (int \<Rightarrow> HeadFoot) \<Rightarrow> int \<Rightarrow> nat \<Rightarrow> HeadFoot" where
  "copied_cell c m src i =
     (let q = cell_of c src + int i;
          off = nat (src mod int (sizeof_HeadFoot c))
      in if off = 0 then m q else splice c off (m q) (m (q + 1)))"

definition memcpy_cells :: "config \<Rightarrow> int \<Rightarrow> int \<Rightarrow> nat \<Rightarrow> state \<Rightarrow> state" where
  "memcpy_cells c dst src n s =
     s\<lparr>mem := (\<lambda>j. if dst \<le> j \<and> j < dst + int n
                    then copied_cell c (mem s) src (nat (j - dst)) else mem s j)\<rparr>"

definition mm_realloc :: "config \<Rightarrow> vptr \<Rightarrow> nat \<Rightarrow> state \<Rightarrow> (vptr \<times> state) option" where
  "mm_realloc c allocatedptr bytechunks s =
     (case allocatedptr of
        Null \<Rightarrow> mm_malloc c bytechunks s
      | MinusOne \<Rightarrow> Some (Null, s\<lparr>errno := EFAULT\<rparr>)
      | Addr a \<Rightarrow>
          (case allocatedblock c allocatedptr s of
             None \<Rightarrow> None
           | Some None \<Rightarrow> Some (Null, s\<lparr>errno := EFAULT\<rparr>)
           | Some (Some blockv) \<Rightarrow>
               let hchunks = (headchunksize c bytechunks + 2) mod 2 ^ 64;
                   insize = size_of_blk (mem s blockv)
               in if hchunks \<le> insize then Some (allocatedptr, s)
                  else
                    (case pick_free_block_from_list_first_fit c hchunks s of
                       None \<Rightarrow> None
                     | Some (None, s1) \<Rightarrow> Some (Null, s1)
                     | Some (Some reblockptr, s1) \<Rightarrow>
                         let copysize = (insize + 2 ^ 64 - 2) mod 2 ^ 64;
                             s2 = memcpy_cells c (reblockptr + 1) a copysize s1
                         in (case returnfreeblocktolist blockv s2 of
                               None \<Rightarrow> None
                             | Some s3 \<Rightarrow> Some (payload_addr c reblockptr, s3)))))"

definition mm_free :: "config \<Rightarrow> vptr \<Rightarrow> state \<Rightarrow> state option" where
  "mm_free c alloc s =
     (if alloc = Null then Some s
      else
        (case allocatedblock c alloc s of
           None \<Rightarrow> None
         | Some None \<Rightarrow> Some (s\<lparr>errno := EFAULT\<rparr>)
         | Some (Some heaf) \<Rightarrow> returnfreeblocktolist heaf s))"

subsection \<open>A target and a fresh process\<close>

text \<open>
  The target of the spec's scenarios: \<^verbatim>\<open>sizeof(HeadFoot) = 32\<close> and a page of 4096 bytes,
  so that a page is 128 cells; a provider willing to commit 20 MB. \<open>fresh\<close> is the state of a
  process that has not called the allocator yet, with zeroed memory.
\<close>

definition cfg32 :: config where
  "cfg32 = \<lparr>sizeof_HeadFoot = 32, pagesize = 4096, sizeof_max_align_t = 16,
     heap_lo_addr = 4096, max_heap = 20971520, splice = (\<lambda>off lo hi. lo)\<rparr>"

definition zero_cell :: HeadFoot where
  "zero_cell = \<lparr>previous_free = None, next_free = None, size_of_blk = 0, alloc_or_not = False\<rparr>"

definition fresh :: state where
  "fresh = \<lparr>mem = (\<lambda>_. zero_cell), brk = 0, freelist = None, errno = 0\<rparr>"

text \<open>
  The same target with the size the union has where pointers and \<^verbatim>\<open>size_t\<close> take 8
  bytes: two pointers and one word of bit-fields.
\<close>

definition cfg24 :: config where
  "cfg24 = \<lparr>sizeof_HeadFoot = 24, pagesize = 4096, sizeof_max_align_t = 16,
     heap_lo_addr = 4096, max_heap = 20971520, splice = (\<lambda>off lo hi. lo)\<rparr>"

text \<open>What the caller does with a payload: it stores a value into one of its cells.\<close>

definition caller_store :: "int \<Rightarrow> HeadFoot \<Rightarrow> state \<Rightarrow> state" where
  "caller_store i v s = s\<lparr>mem := (mem s)(i := v)\<rparr>"

text \<open>The arena after the first \<^verbatim>\<open>mm_malloc(64)\<close> of a fresh process.\<close>

definition arena1 :: state where
  "arena1 = (case mm_malloc cfg32 64 fresh of Some (a, s) \<Rightarrow> s | None \<Rightarrow> fresh)"


subsection \<open>The shape of a state, for stating what the searches do\<close>

text \<open>
  \<open>on_ring s a k x\<close>: following \<^verbatim>\<open>next_free\<close> from cell \<open>x\<close> reaches the anchor \<open>a\<close> after
  \<open>k + 1\<close> links, and no cell on the way has a \<^verbatim>\<open>NULL\<close> link. \<open>first_fit headc s a k x\<close> is
  the first cell that passes the test of the searches among the cells visited from \<open>x\<close>
  before the anchor comes up again.
\<close>

fun on_ring :: "state \<Rightarrow> int \<Rightarrow> nat \<Rightarrow> int \<Rightarrow> bool" where
  "on_ring s a 0 x \<longleftrightarrow>
     next_free (mem s x) = Some a \<and> previous_free (mem s x) \<noteq> None"
| "on_ring s a (Suc k) x \<longleftrightarrow>
     (case next_free (mem s x) of
        None \<Rightarrow> False
      | Some y \<Rightarrow> previous_free (mem s x) \<noteq> None \<and> on_ring s a k y)"

fun first_fit :: "nat \<Rightarrow> state \<Rightarrow> int \<Rightarrow> nat \<Rightarrow> int \<Rightarrow> int option" where
  "first_fit headc s a 0 x = (if fits headc x s then Some x else None)"
| "first_fit headc s a (Suc k) x =
     (if fits headc x s then Some x
      else (case next_free (mem s x) of
              None \<Rightarrow> None
            | Some y \<Rightarrow> if y = a then None else first_fit headc s a k y))"

text \<open>The state in which \<^verbatim>\<open>mm_malloc\<close> begins its search.\<close>

definition started :: "config \<Rightarrow> state \<Rightarrow> state" where
  "started c s = (if freelist s = None then mm_init c s else s)"

text \<open>A provider with less to give: the five cells of \<^verbatim>\<open>restart\<close> and no more.\<close>

definition cfg_tiny :: config where
  "cfg_tiny = cfg32\<lparr>max_heap := 160\<rparr>"

text \<open>
  The arena after \<^verbatim>\<open>a = mm_malloc(64); b = mm_malloc(64); mm_free(a)\<close> in a fresh process:
  \<open>b\<close> is the block at cell 124 (byte 4000), the free block at cell 128 is the anchor and
  lies just below the trailing sentinel.
\<close>

definition arena_top_free :: state where
  "arena_top_free =
     (case mm_malloc cfg32 64 fresh of
        None \<Rightarrow> fresh
      | Some (a, s1) \<Rightarrow>
          (case mm_malloc cfg32 64 s1 of
             None \<Rightarrow> fresh
           | Some (b, s2) \<Rightarrow> (case mm_free cfg32 a s2 of None \<Rightarrow> fresh | Some s3 \<Rightarrow> s3)))"

text \<open>
  What \<^verbatim>\<open>increaseheapsize\<close> asks of the provider, whether the provider refuses it, and the
  cell of the trailing sentinel when the break is on a cell boundary.
\<close>

definition grow_units :: "config \<Rightarrow> nat \<Rightarrow> nat" where
  "grow_units c headc =
     (if headc < headchunksize c (pagesize c) then headchunksize c (pagesize c) else headc)"

definition refused :: "config \<Rightarrow> nat \<Rightarrow> state \<Rightarrow> bool" where
  "refused c headc s \<longleftrightarrow> max_heap c < brk s + conv_bytes c (grow_units c headc)"

definition last_cell :: "config \<Rightarrow> state \<Rightarrow> int" where
  "last_cell c s = cell_of c (int (brk s)) - 1"

text \<open>
  \<open>tail_ok\<close>: the cell below the trailing sentinel is marked allocated, or it is the footer
  of a free block of the list whose header agrees with it on the size, and which will not
  outgrow the size field when the new cells are added to it.
\<close>

definition tail_ok :: "config \<Rightarrow> nat \<Rightarrow> state \<Rightarrow> bool" where
  "tail_ok c headc s \<longleftrightarrow>
     (let t = last_cell c s
      in if alloc_or_not (mem s (t - 1)) then True
         else
           (let ps = size_of_blk (mem s (t - 1)); lower = t - int ps
            in 0 < ps \<and> size_of_blk (mem s lower) = ps
               \<and> alloc_or_not (mem s lower) = False
               \<and> previous_free (mem s lower) \<noteq> None
               \<and> next_free (mem s lower) \<noteq> None
               \<and> ps + grow_units c headc < 2 ^ 31))"

section \<open>Stepping the loops\<close>

lemma search_fit:
  "fits headc b s \<Longrightarrow> search_loop c headc (Some b) s = place_block headc b s"
  by (subst search_loop.simps) simp

lemma search_next:
  "\<not> fits headc b s \<Longrightarrow> next_free (mem s b) \<noteq> freelist s \<Longrightarrow>
   search_loop c headc (Some b) s = search_loop c headc (next_free (mem s b)) s"
  by (subst search_loop.simps) simp

lemma search_wrap:
  "\<not> fits headc b s \<Longrightarrow> next_free (mem s b) = freelist s \<Longrightarrow>
   search_loop c headc (Some b) s =
     (case increaseheapsize c headc s of
        None \<Rightarrow> None
      | Some (None, s') \<Rightarrow> Some (None, s')
      | Some (Some g, s') \<Rightarrow> search_loop c headc (Some g) s')"
  by (subst search_loop.simps) simp

lemma search_null: "search_loop c headc None s = None"
  by (subst search_loop.simps) simp

lemma walk_step:
  "proceed * int (sizeof_HeadFoot c) \<le> allocated \<Longrightarrow>
   block_walk c allocated blck_list proceed s =
     block_walk c allocated proceed (proceed + int (size_of_blk (mem s proceed))) s"
  by (subst block_walk.simps) simp

lemma walk_stop:
  "\<not> proceed * int (sizeof_HeadFoot c) \<le> allocated \<Longrightarrow>
   block_walk c allocated blck_list proceed s = Some blck_list"
  by (subst block_walk.simps) simp

lemma scan_stop:
  "next_free (mem s t) = freelist s \<Longrightarrow>
   best_scan headc (Some t) (Some bf) s =
     Some (if headc \<le> size_of_blk (mem s t) \<and> alloc_or_not (mem s t) = False
              \<and> size_of_blk (mem s t) < size_of_blk (mem s bf)
           then Some t else Some bf)"
  by (subst best_scan.simps) (simp add: Let_def)

lemma scan_step:
  "next_free (mem s t) \<noteq> freelist s \<Longrightarrow>
   best_scan headc (Some t) (Some bf) s =
     best_scan headc (next_free (mem s t))
       (if headc \<le> size_of_blk (mem s t) \<and> alloc_or_not (mem s t) = False
           \<and> size_of_blk (mem s t) < size_of_blk (mem s bf)
        then Some t else Some bf) s"
  by (subst best_scan.simps) (simp add: Let_def)

lemma bind_weak_cong: "x = y \<Longrightarrow> Option.bind x f = Option.bind y f"
  by simp

text \<open>
  Running the model on a concrete state: the loops advance by the conditional steps above,
  everything else unfolds; \<open>let_weak_cong\<close> and \<open>bind_weak_cong\<close> make the simplifier
  evaluate a state before it is used.
\<close>

lemmas evals = search_fit search_next search_wrap search_null walk_step walk_stop
  scan_stop scan_step
  mm_malloc_def mm_init_def mm_reset_def mem_init_def mem_reset_brk_def restart_def
  mem_sbrk_def mem_heap_lo_def mem_heap_hi_def
  set_size_def set_alloc_def set_next_def set_prev_def cell_of_def takefromlist_def conv_bytes_def
  merge_upper_def returnfreeblocktolist_def headchunksize_def increaseheapsize_def fits_def
  place_block_def pick_free_block_from_list_first_fit_def pick_free_block_from_list_best_fit_def
  request_chunks_def payload_addr_def
  slow_path_def allocatedblock_def fast_path_guard_def fast_path_def mm_free_def blocks_def
  zero_cell_def fresh_def cfg32_def Let_def

lemmas shape_evals = started_def cfg_tiny_def arena_top_free_def arena1_def
  grow_units_def refused_def last_cell_def tail_ok_def

section \<open>What a store leaves alone\<close>

lemma size_set:
  "size_of_blk (mem (set_size i v s) j) = (if j = i then v mod 2 ^ 31 else size_of_blk (mem s j))"
  "size_of_blk (mem (set_alloc i a s) j) = size_of_blk (mem s j)"
  "size_of_blk (mem (set_next i p s) j) = size_of_blk (mem s j)"
  "size_of_blk (mem (set_prev i p s) j) = size_of_blk (mem s j)"
  by (simp_all add: set_size_def set_alloc_def set_next_def set_prev_def)

lemma alloc_set:
  "alloc_or_not (mem (set_size i v s) j) = alloc_or_not (mem s j)"
  "alloc_or_not (mem (set_alloc i a s) j) = (if j = i then a else alloc_or_not (mem s j))"
  "alloc_or_not (mem (set_next i p s) j) = alloc_or_not (mem s j)"
  "alloc_or_not (mem (set_prev i p s) j) = alloc_or_not (mem s j)"
  by (simp_all add: set_size_def set_alloc_def set_next_def set_prev_def)

lemma next_set:
  "next_free (mem (set_size i v s) j) = next_free (mem s j)"
  "next_free (mem (set_alloc i a s) j) = next_free (mem s j)"
  "next_free (mem (set_next i p s) j) = (if j = i then p else next_free (mem s j))"
  "next_free (mem (set_prev i p s) j) = next_free (mem s j)"
  by (simp_all add: set_size_def set_alloc_def set_next_def set_prev_def)

lemma prev_set:
  "previous_free (mem (set_size i v s) j) = previous_free (mem s j)"
  "previous_free (mem (set_alloc i a s) j) = previous_free (mem s j)"
  "previous_free (mem (set_next i p s) j) = previous_free (mem s j)"
  "previous_free (mem (set_prev i p s) j) = (if j = i then p else previous_free (mem s j))"
  by (simp_all add: set_size_def set_alloc_def set_next_def set_prev_def)

lemma other_set:
  "freelist (set_size i n s) = freelist s" "brk (set_size i n s) = brk s"
  "errno (set_size i n s) = errno s"
  "freelist (set_alloc i v s) = freelist s" "brk (set_alloc i v s) = brk s"
  "errno (set_alloc i v s) = errno s"
  "freelist (set_next i p s) = freelist s" "brk (set_next i p s) = brk s"
  "errno (set_next i p s) = errno s"
  "freelist (set_prev i p s) = freelist s" "brk (set_prev i p s) = brk s"
  "errno (set_prev i p s) = errno s"
  by (simp_all add: set_size_def set_alloc_def set_next_def set_prev_def)

lemmas cell_simps = size_set alloc_set next_set prev_set other_set

section \<open>Placement: split or consume\<close>

lemma place_split_aux:
  assumes sz: "size_of_blk (mem s b) = alc + headc" and alc: "4 \<le> alc" and h: "0 < headc"
    and bound: "alc + headc < 2 ^ 31"
  shows "\<exists>s'. place_block headc b s = Some (Some (b + int alc), s')
     \<and> size_of_blk (mem s' b) = alc
     \<and> alloc_or_not (mem s' b) = alloc_or_not (mem s b)
     \<and> size_of_blk (mem s' (b + int alc - 1)) = alc
     \<and> size_of_blk (mem s' (b + int alc)) = headc
     \<and> alloc_or_not (mem s' (b + int alc)) = True
     \<and> size_of_blk (mem s' (b + int alc + int headc - 1)) = headc
     \<and> alloc_or_not (mem s' (b + int alc + int headc - 1)) = True
     \<and> freelist s' = freelist s
     \<and> (\<forall>i. next_free (mem s' i) = next_free (mem s i)
            \<and> previous_free (mem s' i) = previous_free (mem s i))"
proof -
  have a: "alc < 2 ^ 31" and hc: "headc < 2 ^ 31" using bound by simp_all
  have nw: "\<not> alc + headc < headc + blocks" using alc by (simp add: blocks_def)
  show ?thesis
    using alc h a hc nw
    by (simp add: place_block_def Let_def sz cell_simps)
qed

lemma place_whole:
  assumes w: "size_of_blk (mem s b) < headc + blocks"
    and p: "previous_free (mem s b) = Some p" and n: "next_free (mem s b) = Some n"
  shows "\<exists>s'. place_block headc b s = Some (Some b, s')
     \<and> size_of_blk (mem s' b) = size_of_blk (mem s b)
     \<and> alloc_or_not (mem s' b) = True
     \<and> size_of_blk (mem s' (b + int (size_of_blk (mem s b)) - 1))
          = size_of_blk (mem s (b + int (size_of_blk (mem s b)) - 1))
     \<and> alloc_or_not (mem s' (b + int (size_of_blk (mem s b)) - 1)) = True
     \<and> next_free (mem s' p) = Some n \<and> previous_free (mem s' n) = Some p"
proof -
  define s1 where
    "s1 = (if Some b = freelist s then s\<lparr>freelist := previous_free (mem s b)\<rparr> else s)"
  have m1: "mem s1 = mem s" by (simp add: s1_def)
  define s2 where "s2 = set_prev n (Some p) (set_next p (Some n) s1)"
  have t: "takefromlist b s1 = Some s2"
    by (simp add: takefromlist_def Let_def m1 p n s2_def)
  have sz2: "\<And>i. size_of_blk (mem s2 i) = size_of_blk (mem s i)"
    and al2: "\<And>i. alloc_or_not (mem s2 i) = alloc_or_not (mem s i)"
    by (simp_all add: s2_def m1 cell_simps)
  have l2: "next_free (mem s2 p) = Some n" "previous_free (mem s2 n) = Some p"
    by (simp_all add: s2_def m1 cell_simps)
  define s4 where
    "s4 = set_alloc b True (set_alloc (b + int (size_of_blk (mem s b)) - 1) True s2)"
  have pb: "place_block headc b s = Some (Some b, s4)"
    using w by (simp add: place_block_def Let_def s1_def[symmetric] t sz2 s4_def)
  have f1: "size_of_blk (mem s4 b) = size_of_blk (mem s b)"
    by (simp add: s4_def sz2 cell_simps)
  have f2: "alloc_or_not (mem s4 b) = True"
    by (simp add: s4_def cell_simps)
  have f3: "size_of_blk (mem s4 (b + int (size_of_blk (mem s b)) - 1))
      = size_of_blk (mem s (b + int (size_of_blk (mem s b)) - 1))"
    by (simp add: s4_def sz2 cell_simps)
  have f4: "alloc_or_not (mem s4 (b + int (size_of_blk (mem s b)) - 1)) = True"
    by (simp add: s4_def cell_simps)
  have f5: "next_free (mem s4 p) = Some n"
    by (simp add: s4_def l2 cell_simps)
  have f6: "previous_free (mem s4 n) = Some p"
    by (simp add: s4_def l2 cell_simps)
  show ?thesis
    using pb f1 f2 f3 f4 f5 f6 by blast
qed

text \<open>
  C2. A request of \<open>headc\<close> cells served from a free block \<open>b\<close> of the list splits \<open>b\<close>
  exactly when \<open>b\<close> has at least \<open>headc + 4\<close> cells. When it splits, the returned header is
  \<open>b + size - headc\<close>, the high end; both tags of that piece carry \<open>headc\<close> and the
  allocated bit; \<open>b\<close> keeps the low end with \<open>size - headc\<close> in its header and in its new
  footer, its header still free; \<^verbatim>\<open>freelist\<close> and every link of every cell are what they
  were, so the remainder sits where \<open>b\<close> sat on the list. Otherwise \<open>b\<close> itself is returned,
  its size unchanged, header and footer marked allocated, and its neighbours on the list
  linked to each other.
\<close>

theorem split_iff_four_cells_remain:
  assumes f: "fits headc b s" and h: "0 < headc" and w: "size_of_blk (mem s b) < 2 ^ 31"
    and p: "previous_free (mem s b) = Some p" and n: "next_free (mem s b) = Some n"
  shows "\<exists>s'. place_block headc b s
        = Some (Some (if headc + 4 \<le> size_of_blk (mem s b)
                      then b + int (size_of_blk (mem s b) - headc) else b), s')
     \<and> (if headc + 4 \<le> size_of_blk (mem s b)
        then size_of_blk (mem s' b) = size_of_blk (mem s b) - headc
           \<and> alloc_or_not (mem s' b) = False
           \<and> size_of_blk (mem s' (b + int (size_of_blk (mem s b) - headc) - 1))
                = size_of_blk (mem s b) - headc
           \<and> size_of_blk (mem s' (b + int (size_of_blk (mem s b) - headc))) = headc
           \<and> alloc_or_not (mem s' (b + int (size_of_blk (mem s b) - headc))) = True
           \<and> size_of_blk (mem s' (b + int (size_of_blk (mem s b)) - 1)) = headc
           \<and> alloc_or_not (mem s' (b + int (size_of_blk (mem s b)) - 1)) = True
           \<and> freelist s' = freelist s
           \<and> (\<forall>i. next_free (mem s' i) = next_free (mem s i)
                  \<and> previous_free (mem s' i) = previous_free (mem s i))
        else size_of_blk (mem s' b) = size_of_blk (mem s b)
           \<and> alloc_or_not (mem s' b) = True
           \<and> size_of_blk (mem s' (b + int (size_of_blk (mem s b)) - 1))
                = size_of_blk (mem s (b + int (size_of_blk (mem s b)) - 1))
           \<and> alloc_or_not (mem s' (b + int (size_of_blk (mem s b)) - 1)) = True
           \<and> next_free (mem s' p) = Some n \<and> previous_free (mem s' n) = Some p)"
proof (cases "headc + 4 \<le> size_of_blk (mem s b)")
  case True
  define alc where "alc = size_of_blk (mem s b) - headc"
  have sz: "size_of_blk (mem s b) = alc + headc" using True by (simp add: alc_def)
  have a4: "4 \<le> alc" using True by (simp add: alc_def)
  have bd: "alc + headc < 2 ^ 31" using w sz by simp
  have fr: "alloc_or_not (mem s b) = False" using f by (simp add: fits_def)
  have e: "b + int (size_of_blk (mem s b)) - 1 = b + int alc + int headc - 1"
    by (simp add: sz)
  from place_split_aux [OF sz a4 h bd] obtain s' where
    s': "place_block headc b s = Some (Some (b + int alc), s')"
      "size_of_blk (mem s' b) = alc"
      "alloc_or_not (mem s' b) = alloc_or_not (mem s b)"
      "size_of_blk (mem s' (b + int alc - 1)) = alc"
      "size_of_blk (mem s' (b + int alc)) = headc"
      "alloc_or_not (mem s' (b + int alc)) = True"
      "size_of_blk (mem s' (b + int alc + int headc - 1)) = headc"
      "alloc_or_not (mem s' (b + int alc + int headc - 1)) = True"
      "freelist s' = freelist s"
      "\<forall>i. next_free (mem s' i) = next_free (mem s i)
            \<and> previous_free (mem s' i) = previous_free (mem s i)"
    by blast
  show ?thesis
    apply (simp only: True if_True alc_def[symmetric] e)
    using s' fr by auto
next
  case False
  then have "size_of_blk (mem s b) < headc + blocks" by (simp add: blocks_def)
  from place_whole [OF this p n] show ?thesis
    using False by simp
qed

theorem split_iff_four_cells_remain_witness:
  "fits 4 4 arena1 \<and> (0::nat) < 4 \<and> size_of_blk (mem arena1 4) < 2 ^ 31
   \<and> previous_free (mem arena1 4) = Some 0 \<and> next_free (mem arena1 4) = Some 0
   \<and> (\<exists>s'. place_block 4 4 arena1 = Some (Some 124, s')
         \<and> size_of_blk (mem s' 4) = 120 \<and> alloc_or_not (mem s' 4) = False
         \<and> size_of_blk (mem s' 123) = 120
         \<and> size_of_blk (mem s' 124) = 4 \<and> alloc_or_not (mem s' 124) = True
         \<and> size_of_blk (mem s' 127) = 4 \<and> alloc_or_not (mem s' 127) = True
         \<and> freelist s' = freelist arena1
         \<and> (\<forall>i. next_free (mem s' i) = next_free (mem arena1 i)
                \<and> previous_free (mem s' i) = previous_free (mem arena1 i)))"
proof -
  have sz: "size_of_blk (mem arena1 4) = 124"
    by (simp add: arena1_def evals cong: let_weak_cong bind_weak_cong)
  have f: "fits 4 4 arena1"
    by (simp add: arena1_def evals cong: let_weak_cong bind_weak_cong)
  have p: "previous_free (mem arena1 4) = Some 0"
    by (simp add: arena1_def evals cong: let_weak_cong bind_weak_cong)
  have n: "next_free (mem arena1 4) = Some 0"
    by (simp add: arena1_def evals cong: let_weak_cong bind_weak_cong)
  have h: "(0::nat) < 4" by simp
  have w: "size_of_blk (mem arena1 4) < 2 ^ 31" by (simp add: sz)
  from split_iff_four_cells_remain [OF f h w p n] show ?thesis
    using f p n by (simp add: sz)
qed

section \<open>The first-fit search on a ring\<close>

lemma walk_ring:
  assumes fl: "freelist s = Some a"
  shows "on_ring s a k x \<Longrightarrow>
     search_loop c headc (Some x) s =
       (case first_fit headc s a k x of
          Some y \<Rightarrow> place_block headc y s
        | None \<Rightarrow>
            (case increaseheapsize c headc s of
               None \<Rightarrow> None
             | Some (None, s') \<Rightarrow> Some (None, s')
             | Some (Some g, s') \<Rightarrow> search_loop c headc (Some g) s'))"
proof (induction k arbitrary: x)
  case 0
  then have nx: "next_free (mem s x) = freelist s" by (simp add: fl)
  show ?case
  proof (cases "fits headc x s")
    case True
    then show ?thesis by (simp add: search_fit)
  next
    case False
    then show ?thesis by (simp add: search_wrap [OF False nx])
  qed
next
  case (Suc k)
  from Suc.prems obtain y where y: "next_free (mem s x) = Some y" and r: "on_ring s a k y"
    by (auto split: option.splits)
  show ?case
  proof (cases "fits headc x s")
    case True
    then show ?thesis by (simp add: search_fit)
  next
    case nf: False
    show ?thesis
    proof (cases "y = a")
      case True
      then have nx: "next_free (mem s x) = freelist s" by (simp add: fl y)
      show ?thesis using nf True by (simp add: search_wrap [OF nf nx] y)
    next
      case False
      then have nx: "next_free (mem s x) \<noteq> freelist s" by (simp add: fl y)
      show ?thesis using nf False Suc.IH [OF r] by (simp add: search_next [OF nf nx] y)
    qed
  qed
qed

lemma first_fit_some:
  "on_ring s a k x \<Longrightarrow> first_fit headc s a k x = Some y \<Longrightarrow>
   fits headc y s \<and> previous_free (mem s y) \<noteq> None \<and> next_free (mem s y) \<noteq> None"
proof (induction k arbitrary: x)
  case 0
  then show ?case by (auto split: if_splits)
next
  case (Suc k)
  then show ?case by (auto split: if_splits option.splits)
qed

lemma place_returns:
  assumes f: "fits headc b s" and h: "0 < headc"
    and p: "previous_free (mem s b) \<noteq> None" and n: "next_free (mem s b) \<noteq> None"
  shows "\<exists>g s'. place_block headc b s = Some (Some g, s')
     \<and> alloc_or_not (mem s' g) = True
     \<and> headc mod 2 ^ 31 \<le> size_of_blk (mem s' g) \<and> size_of_blk (mem s' g) < headc + blocks"
proof (cases "size_of_blk (mem s b) < headc + blocks")
  case True
  from p n obtain p' n' where "previous_free (mem s b) = Some p'" "next_free (mem s b) = Some n'"
    by auto
  from place_whole [OF True this] obtain s' where
    "place_block headc b s = Some (Some b, s')" "size_of_blk (mem s' b) = size_of_blk (mem s b)"
    "alloc_or_not (mem s' b) = True" by blast
  moreover have "headc mod 2 ^ 31 \<le> size_of_blk (mem s b)"
    using f by (simp add: fits_def) (meson le_trans mod_less_eq_dividend)
  ultimately show ?thesis using True by auto
next
  case False
  have le: "headc mod 2 ^ 31 \<le> headc" by simp
  show ?thesis
    using False h le by (simp add: place_block_def Let_def cell_simps blocks_def)
qed

lemma grow_refused:
  "refused c headc s \<Longrightarrow> increaseheapsize c headc s = Some (None, s)"
  by (simp add: increaseheapsize_def refused_def grow_units_def mem_sbrk_def Let_def)

lemma grow_accepted:
  assumes fl: "freelist s = Some a" and nx: "next_free (mem s a) = Some n"
    and tail: "tail_ok c headc s" and h: "0 < headc" and hb: "grow_units c headc < 2 ^ 31"
    and acc: "\<not> refused c headc s"
  shows "\<exists>g s'. increaseheapsize c headc s = Some (Some g, s') \<and> fits headc g s'
     \<and> previous_free (mem s' g) \<noteq> None \<and> next_free (mem s' g) \<noteq> None"
proof -
  define H where "H = grow_units c headc"
  define t where "t = last_cell c s"
  have H1: "0 < H" and Hh: "headc \<le> H" using h by (simp_all add: H_def grow_units_def)
  have Hb: "H < 2 ^ 31" using hb by (simp add: H_def)
  define s6 where
    "s6 = set_size (t + int H) 1 (set_alloc (t + int H) True (set_alloc t False
           (set_alloc (t + int H - 1) False (set_size t H (set_size (t + int H - 1) H
             (s\<lparr>brk := brk s + conv_bytes c H\<rparr>))))))"
  have inc: "increaseheapsize c headc s =
      (case returnfreeblocktolist t s6 of None \<Rightarrow> None | Some s7 \<Rightarrow> Some (freelist s7, s7))"
    using acc
    by (simp add: increaseheapsize_def refused_def grow_units_def mem_sbrk_def Let_def
        H_def t_def last_cell_def s6_def)
  have sz_t: "size_of_blk (mem s6 t) = H"
    using H1 Hb by (simp add: s6_def cell_simps)
  have al_top: "alloc_or_not (mem s6 (t + int H)) = True"
    using H1 by (simp add: s6_def cell_simps)
  have below: "\<And>j. j < t \<Longrightarrow> size_of_blk (mem s6 j) = size_of_blk (mem s j)
      \<and> alloc_or_not (mem s6 j) = alloc_or_not (mem s j)"
    using H1 by (simp add: s6_def cell_simps)
  have links: "\<And>j. next_free (mem s6 j) = next_free (mem s j)
      \<and> previous_free (mem s6 j) = previous_free (mem s j)"
    by (simp add: s6_def cell_simps)
  have fl6: "freelist s6 = Some a"
    by (simp add: s6_def cell_simps fl)
  define s8 where "s8 = set_alloc t False (set_alloc (t + int H - 1) False s6)"
  have sz8: "\<And>j. size_of_blk (mem s8 j) = size_of_blk (mem s6 j)"
    and lk8: "\<And>j. next_free (mem s8 j) = next_free (mem s6 j)"
      "\<And>j. previous_free (mem s8 j) = previous_free (mem s6 j)"
    and fl8: "freelist s8 = Some a"
    by (simp_all add: s8_def cell_simps fl6)
  have al8_top: "alloc_or_not (mem s8 (t + int H)) = True"
    using H1 al_top by (simp add: s8_def cell_simps)
  have al8_t: "alloc_or_not (mem s8 t) = False"
    by (simp add: s8_def cell_simps)
  have al8_below: "\<And>j. j < t \<Longrightarrow> alloc_or_not (mem s8 j) = alloc_or_not (mem s j)"
    using H1 below by (simp add: s8_def cell_simps)
  show ?thesis
  proof (cases "alloc_or_not (mem s (t - 1))")
    case True
    define s12 where
      "s12 = set_next a (Some t) (set_prev n (Some t) (set_next t (Some n)
               (set_prev t (Some a) s8)))"
    have ret: "returnfreeblocktolist t s6 = merge_upper t H s12"
      using True al8_below [of "t - 1"]
      by (simp add: returnfreeblocktolist_def Let_def sz_t s8_def[symmetric] fl8 lk8 links nx
          s12_def)
    have al12: "\<And>j. alloc_or_not (mem s12 j) = alloc_or_not (mem s8 j)"
      and sz12: "\<And>j. size_of_blk (mem s12 j) = size_of_blk (mem s8 j)"
      by (simp_all add: s12_def cell_simps)
    have mu: "merge_upper t H s12 = Some (s12\<lparr>freelist := Some t\<rparr>)"
      by (simp add: merge_upper_def Let_def al12 al8_top)
    have p12: "previous_free (mem s12 t) \<noteq> None" and n12: "next_free (mem s12 t) \<noteq> None"
      by (simp_all add: s12_def cell_simps)
    have "fits headc t (s12\<lparr>freelist := Some t\<rparr>)"
      using Hh by (simp add: fits_def al12 sz12 al8_t sz8 sz_t)
    then show ?thesis
      using p12 n12 by (simp add: inc ret mu)
  next
    case False
    define ps where "ps = size_of_blk (mem s (t - 1))"
    define lower where "lower = t - int ps"
    from tail False have ps: "0 < ps" and szl: "size_of_blk (mem s lower) = ps"
      and all: "alloc_or_not (mem s lower) = False"
      and pl: "previous_free (mem s lower) \<noteq> None" and nl: "next_free (mem s lower) \<noteq> None"
      and bd: "ps + H < 2 ^ 31"
      by (simp_all add: tail_ok_def Let_def t_def[symmetric] ps_def[symmetric]
          lower_def[symmetric] H_def[symmetric])
    have lt: "lower < t" using ps by (simp add: lower_def)
    define s10 where
      "s10 = set_size lower (H + ps) (set_size (lower + int (H + ps) - 1) (H + ps) s8)"
    have e8: "size_of_blk (mem s8 (t - 1)) = ps" "size_of_blk (mem s8 lower) = ps"
      using below [of "t - 1"] below [of lower] lt by (simp_all add: sz8 ps_def szl)
    have ret: "returnfreeblocktolist t s6 = merge_upper lower (H + ps) s10"
      using False al8_below [of "t - 1"]
      by (simp add: returnfreeblocktolist_def Let_def sz_t s8_def[symmetric] e8
          lower_def[symmetric] s10_def)
    have top: "lower + (int H + int ps) = t + int H" by (simp add: lower_def)
    have al10: "\<And>j. alloc_or_not (mem s10 j) = alloc_or_not (mem s8 j)"
      and lk10: "\<And>j. next_free (mem s10 j) = next_free (mem s8 j)"
        "\<And>j. previous_free (mem s10 j) = previous_free (mem s8 j)"
      by (simp_all add: s10_def cell_simps)
    have sz10: "size_of_blk (mem s10 lower) = H + ps"
      using bd by (simp add: s10_def cell_simps add.commute)
    have mu: "merge_upper lower (H + ps) s10 = Some (s10\<lparr>freelist := Some lower\<rparr>)"
      by (simp add: merge_upper_def Let_def top al10 al8_top)
    have "fits headc lower (s10\<lparr>freelist := Some lower\<rparr>)"
      using Hh al8_below [OF lt] all by (simp add: fits_def al10 sz10)
    then show ?thesis
      using pl nl by (simp add: inc ret mu lk10 lk8 links)
  qed
qed

lemma ring_next: "on_ring s a k a \<Longrightarrow> \<exists>n. next_free (mem s a) = Some n"
  by (cases k) (auto split: option.splits)

lemma place_never_null: "place_block headc b s = Some (r, s') \<Longrightarrow> r \<noteq> None"
  by (auto simp add: place_block_def Let_def split: if_splits option.splits)

lemma pick_refused:
  assumes fl: "freelist s = Some a" and ring: "on_ring s a k a"
    and rf: "refused c headc s"
    and fail: "pick_free_block_from_list_first_fit c headc s = Some (None, s1)"
  shows "s1 = s"
proof (cases "first_fit headc s a k a")
  case None
  with fail show ?thesis
    by (simp add: pick_free_block_from_list_first_fit_def fl walk_ring [OF fl ring]
        grow_refused [OF rf])
next
  case (Some y)
  with fail have "place_block headc y s = Some (None, s1)"
    by (simp add: pick_free_block_from_list_first_fit_def fl walk_ring [OF fl ring])
  from place_never_null [OF this] show ?thesis by simp
qed

lemma pick_total:
  assumes fl: "freelist s = Some a" and ring: "on_ring s a k a" and h: "0 < headc"
    and acc: "refused c headc s \<or> (tail_ok c headc s \<and> grow_units c headc < 2 ^ 31)"
  shows "\<exists>res s'. pick_free_block_from_list_first_fit c headc s = Some (res, s')
     \<and> (if first_fit headc s a k a = None \<and> refused c headc s
        then res = None \<and> s' = s
        else \<exists>g. res = Some g \<and> alloc_or_not (mem s' g) = True
               \<and> headc mod 2 ^ 31 \<le> size_of_blk (mem s' g)
               \<and> size_of_blk (mem s' g) < headc + blocks)"
proof -
  note w = walk_ring [OF fl ring, of c headc]
  show ?thesis
  proof (cases "first_fit headc s a k a")
    case (Some y)
    from first_fit_some [OF ring Some] have "fits headc y s"
      "previous_free (mem s y) \<noteq> None" "next_free (mem s y) \<noteq> None" by simp_all
    from place_returns [OF this(1) h this(2,3)] show ?thesis
      by (auto simp add: pick_free_block_from_list_first_fit_def fl w Some)
  next
    case None
    show ?thesis
    proof (cases "refused c headc s")
      case True
      then show ?thesis
        by (simp add: pick_free_block_from_list_first_fit_def fl w None grow_refused)
    next
      case False
      with acc have tail: "tail_ok c headc s" and hb: "grow_units c headc < 2 ^ 31"
        by simp_all
      from ring_next [OF ring] obtain n where nx: "next_free (mem s a) = Some n" ..
      from grow_accepted [OF fl nx tail h hb False] obtain g s1 where
        inc: "increaseheapsize c headc s = Some (Some g, s1)" and f: "fits headc g s1"
        and p: "previous_free (mem s1 g) \<noteq> None" and n: "next_free (mem s1 g) \<noteq> None"
        by blast
      from place_returns [OF f h p n] show ?thesis
        using False
        by (auto simp add: pick_free_block_from_list_first_fit_def fl w None inc
            search_fit [OF f])
    qed
  qed
qed

lemma request_chunks_pos: "0 < request_chunks c n"
  by (simp add: request_chunks_def Let_def blocks_def)

lemma mm_malloc_started:
  "mm_malloc c n s =
     (case pick_free_block_from_list_first_fit c (request_chunks c n) (started c s) of
        None \<Rightarrow> None
      | Some (None, s1) \<Rightarrow> Some (Null, s1\<lparr>errno := ENOMEM\<rparr>)
      | Some (Some headptr, s1) \<Rightarrow> Some (payload_addr c headptr, s1))"
  by (simp add: mm_malloc_def started_def Let_def)

text \<open>
  \<^verbatim>\<open>mm_malloc\<close> on a ring. Let the free list be a ring through the anchor, and let the
  provider either refuse the growth the request would need, or the growth be of less
  than \<open>2 ^ 31\<close> cells and the block below the trailing sentinel be allocated or a free
  block of the list with agreeing tags. Then \<^verbatim>\<open>mm_malloc\<close> returns. When no block of the
  ring fits and the provider refuses, it returns \<^verbatim>\<open>NULL\<close> and the state in which it began,
  with \<^verbatim>\<open>errno = ENOMEM\<close>; in every other case it returns the address of the payload of a
  header that is marked allocated and has the cells requested, and at most three more.
\<close>

lemma malloc_on_ring:
  assumes fl: "freelist (started c s) = Some a" and ring: "on_ring (started c s) a k a"
    and acc: "refused c (request_chunks c n) (started c s)
       \<or> (tail_ok c (request_chunks c n) (started c s)
           \<and> grow_units c (request_chunks c n) < 2 ^ 31)"
  shows "\<exists>res s'. mm_malloc c n s = Some (res, s')
     \<and> (if first_fit (request_chunks c n) (started c s) a k a = None
           \<and> refused c (request_chunks c n) (started c s)
        then res = Null \<and> s' = (started c s)\<lparr>errno := ENOMEM\<rparr>
        else \<exists>g. res = payload_addr c g \<and> res \<noteq> Null
               \<and> alloc_or_not (mem s' g) = True
               \<and> request_chunks c n mod 2 ^ 31 \<le> size_of_blk (mem s' g)
               \<and> size_of_blk (mem s' g) < request_chunks c n + blocks)"
proof -
  from pick_total [OF fl ring request_chunks_pos acc] obtain res s1 where
    pk: "pick_free_block_from_list_first_fit c (request_chunks c n) (started c s) = Some (res, s1)"
    and r: "if first_fit (request_chunks c n) (started c s) a k a = None
          \<and> refused c (request_chunks c n) (started c s)
        then res = None \<and> s1 = started c s
        else \<exists>g. res = Some g \<and> alloc_or_not (mem s1 g) = True
               \<and> request_chunks c n mod 2 ^ 31 \<le> size_of_blk (mem s1 g)
               \<and> size_of_blk (mem s1 g) < request_chunks c n + blocks"
    by blast
  have nn: "\<And>g. payload_addr c g \<noteq> Null" by (simp add: payload_addr_def)
  show ?thesis
  proof (cases "first_fit (request_chunks c n) (started c s) a k a = None
          \<and> refused c (request_chunks c n) (started c s)")
    case True
    with r have "res = None" "s1 = started c s" by simp_all
    then show ?thesis using True by (simp add: mm_malloc_started pk)
  next
    case False
    with r obtain g where g: "res = Some g" "alloc_or_not (mem s1 g) = True"
      "request_chunks c n mod 2 ^ 31 \<le> size_of_blk (mem s1 g)"
      "size_of_blk (mem s1 g) < request_chunks c n + blocks"
      by auto
    have m: "mm_malloc c n s = Some (payload_addr c g, s1)"
      by (simp add: mm_malloc_started pk g(1))
    show ?thesis
      apply (simp only: False if_False m)
      using g nn by blast
  qed
qed

text \<open>With a provider that has nothing to give, the first request is refused.\<close>

lemma malloc_refused_example:
  "mm_malloc cfg_tiny 64 fresh = Some (Null, (started cfg_tiny fresh)\<lparr>errno := ENOMEM\<rparr>)"
proof -
  have fl: "freelist (started cfg_tiny fresh) = Some 0"
    by (simp add: shape_evals evals cong: let_weak_cong)
  have ring: "on_ring (started cfg_tiny fresh) 0 0 0"
    by (simp add: shape_evals evals cong: let_weak_cong)
  have rf: "refused cfg_tiny (request_chunks cfg_tiny 64) (started cfg_tiny fresh)"
    by (simp add: shape_evals evals cong: let_weak_cong)
  then have acc: "refused cfg_tiny (request_chunks cfg_tiny 64) (started cfg_tiny fresh)
      \<or> (tail_ok cfg_tiny (request_chunks cfg_tiny 64) (started cfg_tiny fresh)
          \<and> grow_units cfg_tiny (request_chunks cfg_tiny 64) < 2 ^ 31)" ..
  have ff: "first_fit (request_chunks cfg_tiny 64) (started cfg_tiny fresh) 0 0 0 = None"
    by (simp add: shape_evals evals cong: let_weak_cong)
  from malloc_on_ring [OF fl ring acc] show ?thesis
    by (auto simp add: ff rf simp del: first_fit.simps)
qed

lemma request_chunks_zero: "request_chunks c 0 = 4"
proof -
  have "(sizeof_HeadFoot c - 1) mod 2 ^ 64 div sizeof_HeadFoot c = 0"
  proof (cases "sizeof_HeadFoot c = 0")
    case True
    then show ?thesis by simp
  next
    case False
    have "(sizeof_HeadFoot c - 1) mod 2 ^ 64 \<le> sizeof_HeadFoot c - 1" by simp
    with False have "(sizeof_HeadFoot c - 1) mod 2 ^ 64 < sizeof_HeadFoot c" by linarith
    then show ?thesis by simp
  qed
  then show ?thesis
    by (simp add: request_chunks_def headchunksize_def blocks_def Let_def)
qed

text \<open>
  C10, amended. \<^verbatim>\<open>mm_malloc(0)\<close> asks for 4 cells. Let the free list be a ring through
  the anchor and the block below the trailing sentinel be allocated or a free block of the
  list with agreeing tags. When a block of the ring fits or the provider grants the
  growth, \<^verbatim>\<open>mm_malloc(0)\<close> returns a
  pointer that is not \<^verbatim>\<open>NULL\<close>, to the payload of a block that is marked allocated and has
  at least 4 and at most 7 cells: a free block of fewer than 8 cells is consumed whole.
\<close>

theorem malloc_zero_block_of_four_to_seven:
  assumes fl: "freelist (started c s) = Some a" and ring: "on_ring (started c s) a k a"
    and tail: "tail_ok c 4 (started c s)"
    and acc: "refused c 4 (started c s) \<or> grow_units c 4 < 2 ^ 31"
    and avail: "\<not> (first_fit 4 (started c s) a k a = None \<and> refused c 4 (started c s))"
  shows "request_chunks c 0 = 4
     \<and> (\<exists>g s'. mm_malloc c 0 s = Some (payload_addr c g, s')
           \<and> payload_addr c g \<noteq> Null
           \<and> alloc_or_not (mem s' g) = True
           \<and> 4 \<le> size_of_blk (mem s' g) \<and> size_of_blk (mem s' g) < 8)"
proof -
  have h: "(0::nat) < 4" by simp
  from tail acc have acc':
    "refused c 4 (started c s) \<or> (tail_ok c 4 (started c s) \<and> grow_units c 4 < 2 ^ 31)"
    by blast
  from pick_total [OF fl ring h acc'] avail obtain g s1 where
    pk: "pick_free_block_from_list_first_fit c 4 (started c s) = Some (Some g, s1)"
    and r: "alloc_or_not (mem s1 g) = True" "4 mod 2 ^ 31 \<le> size_of_blk (mem s1 g)"
      "size_of_blk (mem s1 g) < 4 + blocks"
    by (auto split: if_splits)
  have nn: "payload_addr c g \<noteq> Null" by (simp add: payload_addr_def)
  have m: "mm_malloc c 0 s = Some (payload_addr c g, s1)"
    by (simp add: mm_malloc_started request_chunks_zero pk)
  show ?thesis
    using r nn m by (auto simp add: request_chunks_zero blocks_def)
qed

theorem malloc_zero_block_of_four_to_seven_witness:
  "freelist (started cfg32 fresh) = Some 0
   \<and> on_ring (started cfg32 fresh) 0 0 0
   \<and> tail_ok cfg32 4 (started cfg32 fresh)
   \<and> (refused cfg32 4 (started cfg32 fresh) \<or> grow_units cfg32 4 < 2 ^ 31)
   \<and> \<not> (first_fit 4 (started cfg32 fresh) 0 0 0 = None \<and> refused cfg32 4 (started cfg32 fresh))
   \<and> request_chunks cfg32 0 = 4
   \<and> (\<exists>g s'. mm_malloc cfg32 0 fresh = Some (payload_addr cfg32 g, s')
         \<and> payload_addr cfg32 g \<noteq> Null
         \<and> alloc_or_not (mem s' g) = True
         \<and> 4 \<le> size_of_blk (mem s' g) \<and> size_of_blk (mem s' g) < 8)"
proof -
  have fl: "freelist (started cfg32 fresh) = Some 0"
    by (simp add: shape_evals evals cong: let_weak_cong)
  have ring: "on_ring (started cfg32 fresh) 0 0 0"
    by (simp add: shape_evals evals cong: let_weak_cong)
  have tail: "tail_ok cfg32 4 (started cfg32 fresh)"
    by (simp add: shape_evals evals cong: let_weak_cong)
  have gu: "grow_units cfg32 4 < 2 ^ 31"
    by (simp add: shape_evals evals cong: let_weak_cong)
  then have acc: "refused cfg32 4 (started cfg32 fresh) \<or> grow_units cfg32 4 < 2 ^ 31" ..
  have nr: "\<not> refused cfg32 4 (started cfg32 fresh)"
    by (simp add: shape_evals evals cong: let_weak_cong)
  then have avail:
    "\<not> (first_fit 4 (started cfg32 fresh) 0 0 0 = None \<and> refused cfg32 4 (started cfg32 fresh))"
    by simp
  from malloc_zero_block_of_four_to_seven [OF fl ring tail acc avail]
  show ?thesis using fl ring tail acc avail by blast
qed

text \<open>
  In a state whose last block is allocated or a free block with agreeing tags, a search
  that asks for less than \<open>2 ^ 31\<close> cells returns \<^verbatim>\<open>NULL\<close> only when the provider has
  refused: a growth that is granted always yields a block.
\<close>

lemma failure_is_refusal:
  assumes fl: "freelist s = Some a" and ring: "on_ring s a k a" and h: "0 < headc"
    and tail: "tail_ok c headc s" and hb: "grow_units c headc < 2 ^ 31"
    and fail: "pick_free_block_from_list_first_fit c headc s = Some (None, s1)"
  shows "refused c headc s"
proof -
  from tail hb have acc:
    "refused c headc s \<or> (tail_ok c headc s \<and> grow_units c headc < 2 ^ 31)" by blast
  from pick_total [OF fl ring h acc] fail show ?thesis
    by (auto split: if_splits)
qed

text \<open>
  C8. Let \<open>p\<close> be identified as the block at \<open>b\<close>, let the request need more cells than
  \<open>b\<close> has, let the free list be a ring through the anchor, and let the provider refuse
  the growth the request needs. If the search for the new block returns \<^verbatim>\<open>NULL\<close>, then
  \<^verbatim>\<open>mm_realloc\<close> returns \<^verbatim>\<open>NULL\<close> and the state it was called in: no cell has changed, so
  the old block is allocated still, with its size and its payload.
\<close>

theorem realloc_failure_leaves_state:
  assumes id: "allocatedblock c (Addr p) s = Some (Some b)"
    and small: "size_of_blk (mem s b) < (headchunksize c n + 2) mod 2 ^ 64"
    and fl: "freelist s = Some a" and ring: "on_ring s a k a"
    and rf: "refused c ((headchunksize c n + 2) mod 2 ^ 64) s"
    and fail: "pick_free_block_from_list_first_fit c ((headchunksize c n + 2) mod 2 ^ 64) s
       = Some (None, s1)"
  shows "mm_realloc c (Addr p) n s = Some (Null, s)
     \<and> alloc_or_not (mem s b) = True"
proof -
  from pick_refused [OF fl ring rf fail] have "s1 = s" .
  then have r: "mm_realloc c (Addr p) n s = Some (Null, s)"
    using small fail by (simp add: mm_realloc_def id Let_def)
  have "alloc_or_not (mem s b) = True"
    using id
    by (auto simp add: allocatedblock_def slow_path_def fast_path_def Let_def
        split: vptr.splits if_splits option.splits)
  with r show ?thesis by simp
qed

theorem realloc_failure_leaves_state_witness:
  "allocatedblock cfg32 (Addr 4000) arena_top_free = Some (Some 124)
   \<and> size_of_blk (mem arena_top_free 124) < (headchunksize cfg32 (2 ^ 40) + 2) mod 2 ^ 64
   \<and> freelist arena_top_free = Some 128
   \<and> on_ring arena_top_free 128 (Suc (Suc 0)) 128
   \<and> refused cfg32 ((headchunksize cfg32 (2 ^ 40) + 2) mod 2 ^ 64) arena_top_free
   \<and> pick_free_block_from_list_first_fit cfg32
        ((headchunksize cfg32 (2 ^ 40) + 2) mod 2 ^ 64) arena_top_free
        = Some (None, arena_top_free)
   \<and> mm_realloc cfg32 (Addr 4000) (2 ^ 40) arena_top_free = Some (Null, arena_top_free)
   \<and> alloc_or_not (mem arena_top_free 124) = True"
proof -
  have id: "allocatedblock cfg32 (Addr 4000) arena_top_free = Some (Some 124)"
    by (simp add: shape_evals evals cong: let_weak_cong)
  have small:
    "size_of_blk (mem arena_top_free 124) < (headchunksize cfg32 (2 ^ 40) + 2) mod 2 ^ 64"
    by (simp add: shape_evals evals cong: let_weak_cong)
  have fl: "freelist arena_top_free = Some 128"
    by (simp add: shape_evals evals cong: let_weak_cong)
  have ring: "on_ring arena_top_free 128 (Suc (Suc 0)) 128"
    by (simp add: shape_evals evals cong: let_weak_cong)
  have rf: "refused cfg32 ((headchunksize cfg32 (2 ^ 40) + 2) mod 2 ^ 64) arena_top_free"
    by (simp add: shape_evals evals cong: let_weak_cong)
  have fail: "pick_free_block_from_list_first_fit cfg32
      ((headchunksize cfg32 (2 ^ 40) + 2) mod 2 ^ 64) arena_top_free
      = Some (None, arena_top_free)"
    by (simp add: shape_evals evals cong: let_weak_cong)
  from realloc_failure_leaves_state [OF id small fl ring rf fail]
  show ?thesis using id small fl ring rf fail by blast
qed

section \<open>Scenarios\<close>


text \<open>The same with cells of 24 bytes.\<close>

lemma lifo_reuse_24:
  "do { (a, s1) \<leftarrow> mm_malloc cfg24 64 \<lparr>mem = m, brk = b0, freelist = None, errno = e\<rparr>;
        (b, s2) \<leftarrow> mm_malloc cfg24 64 s1;
        s3 \<leftarrow> mm_free cfg24 a s2;
        (c, s4) \<leftarrow> mm_malloc cfg24 64 s3;
        Some (a, b, c) } = Some (Addr 4104, Addr 3984, Addr 4104)"
  by (simp add: cfg24_def evals cong: let_weak_cong bind_weak_cong)

text \<open>
  The split path stores nothing into the allocated bit of the remainder's new footer: in
  any state, that cell has after the split the bit it had before.
\<close>

lemma split_leaves_footer_bit:
  assumes sz: "size_of_blk (mem s b) = alc + headc" and alc: "4 \<le> alc" and h: "0 < headc"
  shows "\<exists>s'. place_block headc b s = Some (Some (b + int alc), s')
     \<and> alloc_or_not (mem s' (b + int alc - 1)) = alloc_or_not (mem s (b + int alc - 1))"
proof -
  have nw: "\<not> alc + headc < headc + blocks" using alc by (simp add: blocks_def)
  show ?thesis
    using alc h nw by (simp add: place_block_def Let_def sz cell_simps)
qed

text \<open>
  C1. The split stores a size into the remainder's new footer and never its allocated
  bit, so the footer keeps the bit the cell had before. After
  \<^verbatim>\<open>mm_malloc(64); mm_malloc(64); mm_reset(); mm_malloc(64)\<close> the free block at cell 4
  has 124 cells, a free header, and a footer (cell 127, the footer of an allocated block
  before the reset) that says allocated.
\<close>

theorem split_keeps_stale_footer_bit:
  "do { (a, s1) \<leftarrow> mm_malloc cfg32 64 fresh;
        (b, s2) \<leftarrow> mm_malloc cfg32 64 s1;
        (c, s3) \<leftarrow> mm_malloc cfg32 64 (mm_reset cfg32 s2);
        Some (c, size_of_blk (mem s3 4), alloc_or_not (mem s3 4),
              size_of_blk (mem s3 127), alloc_or_not (mem s3 127)) }
   = Some (Addr 4128, 124, False, 124, True)"
  by (simp add: evals cong: let_weak_cong bind_weak_cong)

text \<open>
  No reset is needed for a stale bit: the caller's own data does as well. A block of 10
  cells is allocated, the caller stores into its payload (cell 127) a value whose
  allocated bit is set, the block is released and merges with the free block below, and
  the next split puts the remainder's footer on cell 127.
\<close>

lemma stale_bit_from_payload:
  "do { (a, s1) \<leftarrow> mm_malloc cfg32 256 fresh;
        s2 \<leftarrow> mm_free cfg32 a
               (caller_store 127 \<lparr>previous_free = None, next_free = None,
                   size_of_blk = 0, alloc_or_not = True\<rparr> s1);
        (c, s3) \<leftarrow> mm_malloc cfg32 64 s2;
        Some (a, c, size_of_blk (mem s3 4), alloc_or_not (mem s3 4),
              size_of_blk (mem s3 127), alloc_or_not (mem s3 127)) }
   = Some (Addr 3936, Addr 4128, 124, False, 124, True)"
  by (simp add: caller_store_def evals cong: let_weak_cong bind_weak_cong)

text \<open>
  C3. Releasing the block just allocated in that state finds the stale bit in the cell
  below it and does not merge: the free block of 124 cells at cell 4 ends where the free
  block of 4 cells at cell 128 begins, and both are on the free list (128, then 0, then 4,
  then 128 again).
\<close>

theorem stale_footer_bit_blocks_coalescing:
  "do { (a, s1) \<leftarrow> mm_malloc cfg32 64 fresh;
        (b, s2) \<leftarrow> mm_malloc cfg32 64 s1;
        (c, s3) \<leftarrow> mm_malloc cfg32 64 (mm_reset cfg32 s2);
        s4 \<leftarrow> mm_free cfg32 c s3;
        Some (size_of_blk (mem s4 4), alloc_or_not (mem s4 4),
              size_of_blk (mem s4 128), alloc_or_not (mem s4 128),
              freelist s4, next_free (mem s4 128), next_free (mem s4 0),
              next_free (mem s4 4)) }
   = Some (124, False, 4, False, Some 128, Some 0, Some 4, Some 128)"
  by (simp add: evals cong: let_weak_cong bind_weak_cong)

text \<open>
  Where \<^verbatim>\<open>sizeof(max_align_t)\<close> is more than 1, the guard of the fast path is false for every
  pointer, and identification is the walk.
\<close>

lemma fast_path_is_dead:
  assumes "1 < sizeof_max_align_t c"
  shows "allocatedblock c (Addr a) s =
    (if a \<le> mem_heap_lo s \<or> mem_heap_hi s \<le> a then Some None else slow_path c a s)"
proof -
  from assms have "sizeof_max_align_t c - 1 \<noteq> 0" by simp
  then have "\<not> fast_path_guard c a" by (simp add: fast_path_guard_def)
  then show ?thesis by (simp add: allocatedblock_def)
qed

text \<open>
  C5. The guard of the fast path masks the address with \<open>0\<close>, so an aligned pointer goes
  through the walk from the start of the heap like any other. After three allocations of
  64 bytes, a reset and an allocation of 320 bytes, the pointer at byte 4000 (cell 125, on
  a cell boundary, inside the arena) has below it a cell 124 that is marked allocated,
  of size 4, with cell 127 agreeing on both; identification returns the header at cell 120.
\<close>

theorem aligned_pointer_is_walked:
  "do { (a, s1) \<leftarrow> mm_malloc cfg32 64 fresh;
        (b, s2) \<leftarrow> mm_malloc cfg32 64 s1;
        (b', s3) \<leftarrow> mm_malloc cfg32 64 s2;
        (c, s4) \<leftarrow> mm_malloc cfg32 320 (mm_reset cfg32 s3);
        r \<leftarrow> allocatedblock cfg32 (Addr 4000) s4;
        Some (c, r, mem_heap_hi s4, alloc_or_not (mem s4 124), size_of_blk (mem s4 124),
              alloc_or_not (mem s4 127), size_of_blk (mem s4 127)) }
   = Some (Addr 3872, Some 120, 4255, True, 4, True, 4)"
  by (simp add: evals cong: let_weak_cong bind_weak_cong)

text \<open>
  C6. A pointer into a sentinel is inside the bounds that \<^verbatim>\<open>allocatedblock\<close> checks, and
  the walk ends on the sentinel, which is marked allocated: \<^verbatim>\<open>mm_free\<close> takes it for a
  block. Here the arena ends with the trailing sentinel at cell 260 (byte 8320);
  \<^verbatim>\<open>mm_free\<close> of that address returns without setting \<^verbatim>\<open>errno\<close> and the sentinel's
  allocated bit is gone.
\<close>

theorem release_clears_trailing_sentinel:
  "do { (a, s1) \<leftarrow> mm_malloc cfg32 64 fresh;
        (b, s2) \<leftarrow> mm_malloc cfg32 4064 s1;
        (c, s3) \<leftarrow> mm_malloc cfg32 64 (mm_reset cfg32 s2);
        (d, s4) \<leftarrow> mm_malloc cfg32 4032 s3;
        s5 \<leftarrow> mm_free cfg32 (Addr 8320) s4;
        Some (brk s4, size_of_blk (mem s4 260), alloc_or_not (mem s4 260),
              alloc_or_not (mem s5 260), errno s5) }
   = Some (8352, 1, True, False, 0)"
  by (simp add: evals cong: let_weak_cong bind_weak_cong)

text \<open>
  The leading sentinel is found the same way: one byte into the heap, identification
  returns cell 0. And whatever header \<^verbatim>\<open>returnfreeblocktolist\<close> is given, if it returns, the
  allocated bit of that header is clear.
\<close>

lemma release_clears_header_bit:
  "returnfreeblocktolist b s = Some s' \<Longrightarrow> alloc_or_not (mem s' b) = False"
  by (auto simp add: returnfreeblocktolist_def merge_upper_def takefromlist_def Let_def
      cell_simps split: if_splits option.splits)

lemma leading_sentinel_is_identified:
  "allocatedblock cfg32 (Addr 1) arena1 = Some (Some 0)"
  by (simp add: arena1_def evals cong: let_weak_cong bind_weak_cong)

text \<open>
  C7. \<^verbatim>\<open>best_fit\<close> starts as the anchor and is replaced only by a block smaller than the
  one it holds. With a free block of 4 cells as the anchor and free blocks of 108 cells
  (cell 4) and 8 cells (cell 124) behind it, a request of 6 cells leaves \<^verbatim>\<open>best_fit\<close> at
  the anchor and the second loop takes the first block that fits: the result, cell 106,
  is carved from the block of 108 cells, not from the block of 8.
\<close>

theorem best_fit_takes_first_fit:
  "do { (p1, s1) \<leftarrow> mm_malloc cfg32 192 fresh;
        (p2, s2) \<leftarrow> mm_malloc cfg32 64 s1;
        (p3, s3) \<leftarrow> mm_malloc cfg32 64 s2;
        (p4, s4) \<leftarrow> mm_malloc cfg32 64 s3;
        s5 \<leftarrow> mm_free cfg32 p1 s4;
        s6 \<leftarrow> mm_free cfg32 p3 s5;
        (r, s7) \<leftarrow> pick_free_block_from_list_best_fit cfg32 6 s6;
        Some (r, freelist s6, size_of_blk (mem s6 116),
              fits 6 124 s6, size_of_blk (mem s6 124),
              fits 6 4 s6, size_of_blk (mem s6 4)) }
   = Some (Some 106, Some 116, 4, True, 8, True, 108)"
  by (simp add: evals cong: let_weak_cong bind_weak_cong)

text \<open>
  C10, as stated, fails where the first free block that fits has 5, 6 or 7 cells: it is
  consumed whole. Here \<^verbatim>\<open>mm_malloc(0)\<close> returns the payload of the block at cell 126,
  which has 6 cells.
\<close>

theorem malloc_zero_in_six_cell_block:
  "do { (p1, s1) \<leftarrow> mm_malloc cfg32 128 fresh;
        (p2, s2) \<leftarrow> mm_malloc cfg32 64 s1;
        s3 \<leftarrow> mm_free cfg32 p1 s2;
        (r, s4) \<leftarrow> mm_malloc cfg32 0 s3;
        Some (r, size_of_blk (mem s4 126), alloc_or_not (mem s4 126),
              size_of_blk (mem s4 131), alloc_or_not (mem s4 131)) }
   = Some (Addr 4064, 6, True, 6, True)"
  by (simp add: evals cong: let_weak_cong bind_weak_cong)

text \<open>
  C4. With cells of 24 bytes, a request of \<open>2 ^ 64 - 24\<close> bytes needs
  768614336404564652 cells, and \<^verbatim>\<open>conv_bytes\<close> of that many cells wraps around to 32 bytes.
  In a fresh process no block fits and the provider grants the 32 bytes, so the request
  is neither refused nor served: \<^verbatim>\<open>increaseheapsize\<close> stores the tags of a block of that many
  cells, whose footer is far outside the arena, and \<^verbatim>\<open>mm_malloc\<close> does not return, neither
  \<^verbatim>\<open>NULL\<close> nor a pointer.
\<close>

theorem huge_request_does_not_return:
  "request_chunks cfg24 (2 ^ 64 - 24) = 768614336404564652
   \<and> conv_bytes cfg24 (grow_units cfg24 768614336404564652) = 32
   \<and> refused cfg24 768614336404564652 (started cfg24 fresh) = False
   \<and> mm_malloc cfg24 (2 ^ 64 - 24) fresh = None"
  by (simp add: cfg24_def shape_evals evals cong: let_weak_cong)

end
